theory Spec2Isabelle
  imports Main "HOL-Library.Word" "HOL-Library.Sublist"
begin

section \<open>Python values used by the script\<close>

text \<open>
  The script \<^verbatim>\<open>settings/EvalIFG/haystack_gen.py\<close> binds three module variables and
  prints a graph description. Its variables hold Python numbers: an \<^verbatim>\<open>int\<close> is
  unbounded, a \<^verbatim>\<open>float\<close> is an IEEE double, kept here as its 64 bits.
  A builtin that raises ends the run with the exception it raised.
\<close>

datatype pyval = PyInt int | PyFloat "64 word"

datatype error = TypeError | ValueError

datatype outcome = Done | Raised error

subsection \<open>\<^verbatim>\<open>str\<close> on numbers\<close>

text \<open>The ten digit characters; \<open>digit_char\<close> is only ever applied to a number below 10.\<close>

definition digit_char :: "nat \<Rightarrow> char" where
  "digit_char d = ''0123456789'' ! d"

text \<open>The decimal digits of a natural number, most significant first, no leading zero.\<close>

fun str_nat :: "nat \<Rightarrow> string" where
  "str_nat n = (if n < 10 then [digit_char n] else str_nat (n div 10) @ [digit_char (n mod 10)])"

declare str_nat.simps [simp del]

text \<open>
  The decimal text of an \<^verbatim>\<open>int\<close>: a minus sign for a negative number, then the digits.
  This is what \<^verbatim>\<open>str\<close> returns when it returns; whether it does is decided in \<open>str\<close> below.
\<close>

definition str_int :: "int \<Rightarrow> string" where
  "str_int i = (if i < 0 then CHR ''-'' # str_nat (nat (- i)) else str_nat (nat i))"

text \<open>
  The interpreter refuses to convert an \<^verbatim>\<open>int\<close> of more than
  \<^verbatim>\<open>sys.get_int_max_str_digits()\<close> digits, 4300 by default (the sign is not counted), and
  raises \<^verbatim>\<open>ValueError\<close>.
\<close>

definition int_max_str_digits :: nat where
  "int_max_str_digits = 4300"

text \<open>
  \<^verbatim>\<open>str\<close> of a \<^verbatim>\<open>float\<close> is the interpreter's shortest round-trip \<^verbatim>\<open>repr\<close> and never
  raises; it is not code of this script, so it is the parameter \<open>fr\<close> of everything below
  (CPython gives \<^verbatim>\<open>str(0.1) = '0.1'\<close>).
\<close>

fun str :: "(64 word \<Rightarrow> string) \<Rightarrow> pyval \<Rightarrow> error + string" where
  "str fr (PyInt n) =
     (if int_max_str_digits < length (str_nat (nat \<bar>n\<bar>)) then Inl ValueError else Inr (str_int n))"
| "str fr (PyFloat w) = Inr (fr w)"

text \<open>
  \<^verbatim>\<open>range(n)\<close>: the integers \<open>0, \<dots>, n - 1\<close>, none when \<open>n \<le> 0\<close>;
  a \<^verbatim>\<open>float\<close> argument raises \<^verbatim>\<open>TypeError\<close>.
\<close>

fun range_py :: "pyval \<Rightarrow> error + int list" where
  "range_py (PyInt n) = Inr [0..n - 1]"
| "range_py (PyFloat w) = Inl TypeError"

section \<open>The script\<close>

text \<open>
  Standard output is the list of lines written so far; \<^verbatim>\<open>print(s)\<close> writes \<open>s\<close> and a
  newline, that is, appends one line.
\<close>

type_synonym stdout = "string list"

definition print :: "string \<Rightarrow> stdout \<Rightarrow> stdout" where
  "print s out = out @ [s]"

text \<open>The three module variables, as the script binds them (\<open>0.1\<close> is the double \<open>0x3FB999999999999A\<close>).\<close>

definition num_other_paths :: pyval where
  "num_other_paths = PyInt 99"

definition other_path_fitness :: pyval where
  "other_path_fitness = PyFloat 0x3FB999999999999A"

definition path_length :: pyval where
  "path_length = PyInt 7"

text \<open>
  The body of the \<^verbatim>\<open>for\<close> loop, lines 15 to 18:
  \<^verbatim>\<open>
  node_name = 'N' + str(i + 1)
  print('add, ' + node_name + ', ' + str(other_path_fitness))
  print('connect, start, ' + node_name + ', ' + str(path_length))
  print('connect, ' + node_name + ', finish, 0')
  \<close>
  The argument of a \<^verbatim>\<open>print\<close> is evaluated before anything is written, so a \<^verbatim>\<open>str\<close> that
  raises leaves the stream as the statements before it left it.
\<close>

definition loop_body ::
  "(64 word \<Rightarrow> string) \<Rightarrow> pyval \<Rightarrow> pyval \<Rightarrow> int \<Rightarrow> stdout \<Rightarrow> outcome \<times> stdout" where
  "loop_body fr fit pl i out =
     (case str fr (PyInt (i + 1)) of
        Inl e \<Rightarrow> (Raised e, out)
      | Inr s \<Rightarrow>
          let node_name = ''N'' @ s in
          case str fr fit of
            Inl e \<Rightarrow> (Raised e, out)
          | Inr sf \<Rightarrow>
              let out = print (''add, '' @ node_name @ '', '' @ sf) out in
              case str fr pl of
                Inl e \<Rightarrow> (Raised e, out)
              | Inr sp \<Rightarrow>
                  let out = print (''connect, start, '' @ node_name @ '', '' @ sp) out;
                      out = print (''connect, '' @ node_name @ '', finish, 0'') out
                  in (Done, out))"

text \<open>
  \<^verbatim>\<open>for i in xs: body\<close>: the body runs for each element in order; an exception in the
  body ends the loop and the run.
\<close>

fun for_loop ::
  "(int \<Rightarrow> stdout \<Rightarrow> outcome \<times> stdout) \<Rightarrow> int list \<Rightarrow> stdout \<Rightarrow> outcome \<times> stdout" where
  "for_loop body [] out = (Done, out)"
| "for_loop body (i # is) out =
     (case body i out of
        (Done, out') \<Rightarrow> for_loop body is out'
      | (Raised e, out') \<Rightarrow> (Raised e, out'))"

text \<open>
  Lines 5 to 18 of the script, with the three variables as arguments \<open>n\<close>, \<open>fit\<close>, \<open>pl\<close>.
  The header prints run first, the fourth of them after \<^verbatim>\<open>str(path_length)\<close>; then
  \<^verbatim>\<open>range\<close> is called, and the loop runs its body once for each element, in order.
\<close>

definition haystack_gen ::
  "(64 word \<Rightarrow> string) \<Rightarrow> pyval \<Rightarrow> pyval \<Rightarrow> pyval \<Rightarrow> stdout \<Rightarrow> outcome \<times> stdout" where
  "haystack_gen fr n fit pl out =
     (let out = print ''add, start, 1'' out;
          out = print '''' out;
          out = print ''add, B, 9'' out
      in case str fr pl of
           Inl e \<Rightarrow> (Raised e, out)
         | Inr sp \<Rightarrow>
             let out = print (''connect, start, B, '' @ sp) out;
                 out = print '''' out;
                 out = print ''add, finish, 10 '' out;
                 out = print ''connect, B, finish, 0'' out;
                 out = print '''' out
             in case range_py n of
                  Inl e \<Rightarrow> (Raised e, out)
                | Inr is \<Rightarrow> for_loop (loop_body fr fit pl) is out)"

text \<open>The script as it stands, run on an empty stream.\<close>

definition script :: "(64 word \<Rightarrow> string) \<Rightarrow> outcome \<times> stdout" where
  "script fr = haystack_gen fr num_other_paths other_path_fitness path_length []"

text \<open>What a run writes, and the status the interpreter exits with.\<close>

definition emit :: "(64 word \<Rightarrow> string) \<Rightarrow> pyval \<Rightarrow> pyval \<Rightarrow> pyval \<Rightarrow> string list" where
  "emit fr n fit pl = snd (haystack_gen fr n fit pl [])"

fun exit_code :: "outcome \<Rightarrow> nat" where
  "exit_code Done = 0"
| "exit_code (Raised e) = 1"

section \<open>Reading the output format\<close>

text \<open>
  The output is line oriented with comma separated fields: a node line is
  \<^verbatim>\<open>add, <name>, <fitness>\<close> and an edge line is \<^verbatim>\<open>connect, <from>, <to>, <weight>\<close>.
  \<open>fields\<close> splits a line at every separator (a comma and a space), left to right.
\<close>

fun fields :: "string \<Rightarrow> string list" where
  "fields [] = [[]]"
| "fields [c] = [[c]]"
| "fields (c # d # cs) =
     (if c = CHR '','' \<and> d = CHR '' '' then [] # fields cs
      else (case fields (d # cs) of [] \<Rightarrow> [[c]] | f # fs \<Rightarrow> (c # f) # fs))"

definition is_add :: "string \<Rightarrow> bool" where
  "is_add l = (case fields l of a # nm # _ \<Rightarrow> a = ''add'' | _ \<Rightarrow> False)"

definition is_connect :: "string \<Rightarrow> bool" where
  "is_connect l = (case fields l of a # u # v # _ \<Rightarrow> a = ''connect'' | _ \<Rightarrow> False)"

text \<open>The name an \<^verbatim>\<open>add\<close> line declares, and the two endpoints of a \<^verbatim>\<open>connect\<close> line.\<close>

definition add_name :: "string \<Rightarrow> string" where
  "add_name l = (case fields l of a # nm # _ \<Rightarrow> nm | _ \<Rightarrow> [])"

definition connect_from :: "string \<Rightarrow> string" where
  "connect_from l = (case fields l of a # u # _ \<Rightarrow> u | _ \<Rightarrow> [])"

definition connect_to :: "string \<Rightarrow> string" where
  "connect_to l = (case fields l of a # u # v # _ \<Rightarrow> v | _ \<Rightarrow> [])"

definition added_names :: "string list \<Rightarrow> string list" where
  "added_names out = map add_name (filter is_add out)"

definition nonblank :: "string list \<Rightarrow> string list" where
  "nonblank out = filter (\<lambda>l. l \<noteq> []) out"

section \<open>The output as the specification lists it\<close>

text \<open>
  The eight lines of the fixed block, then for \<open>i\<close> from 1 to \<open>k\<close> the three lines of
  distractor \<open>N<i>\<close>; \<open>sf\<close> and \<open>sp\<close> are the texts of \<open>other_path_fitness\<close> and
  \<open>path_length\<close>.
\<close>

definition header_block :: "string \<Rightarrow> string list" where
  "header_block sp =
     [''add, start, 1'',
      [],
      ''add, B, 9'',
      ''connect, start, B, '' @ sp,
      [],
      ''add, finish, 10 '',
      ''connect, B, finish, 0'',
      []]"

definition distractor :: "string \<Rightarrow> string \<Rightarrow> int \<Rightarrow> string list" where
  "distractor sf sp i =
     [''add, N'' @ str_int i @ '', '' @ sf,
      ''connect, start, N'' @ str_int i @ '', '' @ sp,
      ''connect, N'' @ str_int i @ '', finish, 0'']"

definition spec_lines :: "int \<Rightarrow> string \<Rightarrow> string \<Rightarrow> string list" where
  "spec_lines k sf sp = header_block sp @ concat (map (distractor sf sp) [1..k])"

section \<open>Auxiliary functions for the proofs\<close>

text \<open>An \<^verbatim>\<open>int\<close> that \<^verbatim>\<open>str\<close> converts: its digits are within the limit.\<close>

definition fits :: "int \<Rightarrow> bool" where
  "fits i \<longleftrightarrow> length (str_nat (nat \<bar>i\<bar>)) \<le> int_max_str_digits"

text \<open>
  The distractors a run with count \<open>k\<close> writes in full before it ends, and the text of
  the fitness in their lines.
\<close>

definition completed :: "(64 word \<Rightarrow> string) \<Rightarrow> pyval \<Rightarrow> int \<Rightarrow> int list" where
  "completed fr fit k = (case str fr fit of Inl e \<Rightarrow> [] | Inr sf \<Rightarrow> takeWhile fits [1..k])"

definition fit_text :: "(64 word \<Rightarrow> string) \<Rightarrow> pyval \<Rightarrow> string" where
  "fit_text fr fit = (case str fr fit of Inl e \<Rightarrow> [] | Inr sf \<Rightarrow> sf)"

text \<open>
  A single pass over the output that remembers the names declared so far: every
  \<^verbatim>\<open>connect\<close> line must find both its endpoints among them.
\<close>

fun declared_before :: "string list \<Rightarrow> string list \<Rightarrow> bool" where
  "declared_before seen [] = True"
| "declared_before seen (l # ls) =
     (if is_add l then declared_before (add_name l # seen) ls
      else if is_connect l then
        connect_from l \<in> set seen \<and> connect_to l \<in> set seen \<and> declared_before seen ls
      else declared_before seen ls)"

section \<open>The loop and the whole script\<close>

lemma str_PyInt: "str fr (PyInt n) = (if fits n then Inr (str_int n) else Inl ValueError)"
  by (simp add: fits_def)

declare str.simps(1) [simp del]

lemma str_Inr_PyInt: "str fr (PyInt n) = Inr s \<longleftrightarrow> fits n \<and> s = str_int n"
  by (auto simp: str_PyInt)

lemma map_succ_upto: "map (\<lambda>i. i + 1) [a..b] = [a + 1..b + 1]"
  by (rule nth_equalityI) simp_all

lemma loop_body_ok:
  "str fr pl = Inr sp \<Longrightarrow> str fr fit = Inr sf \<Longrightarrow> fits (i + 1) \<Longrightarrow>
   loop_body fr fit pl i out = (Done, out @ distractor sf sp (i + 1))"
  by (simp add: loop_body_def str_PyInt print_def distractor_def Let_def)

lemma loop_body_too_long:
  "\<not> fits (i + 1) \<Longrightarrow> loop_body fr fit pl i out = (Raised ValueError, out)"
  by (simp add: loop_body_def str_PyInt)

lemma loop_body_fit_raises:
  "str fr fit = Inl e \<Longrightarrow> \<exists>e'. loop_body fr fit pl i out = (Raised e', out)"
  by (simp add: loop_body_def str_PyInt)

lemma for_loop_fit_ok:
  assumes "str fr pl = Inr sp" and "str fr fit = Inr sf"
  shows "for_loop (loop_body fr fit pl) is out =
     (if \<forall>i\<in>set is. fits (i + 1) then Done else Raised ValueError,
      out @ concat (map (\<lambda>i. distractor sf sp (i + 1)) (takeWhile (\<lambda>i. fits (i + 1)) is)))"
proof (induction "is" arbitrary: out)
  case Nil
  show ?case by simp
next
  case (Cons i "is")
  show ?case
  proof (cases "fits (i + 1)")
    case True
    then show ?thesis
      by (simp add: loop_body_ok [OF assms] Cons.IH)
  next
    case False
    then show ?thesis
      by (simp add: loop_body_too_long)
  qed
qed

lemma for_loop_fit_raises:
  assumes "str fr fit = Inl e"
  shows "snd (for_loop (loop_body fr fit pl) is out) = out
       \<and> (fst (for_loop (loop_body fr fit pl) is out) = Done \<longleftrightarrow> is = [])"
proof (cases "is")
  case Nil
  then show ?thesis by simp
next
  case (Cons i js)
  from loop_body_fit_raises [OF assms] obtain e' where "loop_body fr fit pl i out = (Raised e', out)"
    by blast
  with Cons show ?thesis by simp
qed

lemma takeWhile_fits_shift:
  "map (\<lambda>i. i + 1) (takeWhile (\<lambda>i. fits (i + 1)) [0..k - 1]) = takeWhile fits [1..k]"
proof -
  have "takeWhile fits (map (\<lambda>i. i + 1) [0..k - 1]) = map (\<lambda>i. i + 1) (takeWhile (fits \<circ> (\<lambda>i. i + 1)) [0..k - 1])"
    by (rule takeWhile_map)
  moreover have "map (\<lambda>i. i + 1) [0..k - 1] = [1..k]"
    using map_succ_upto [of 0 "k - 1"] by simp
  ultimately show ?thesis by (simp add: comp_def)
qed

lemma concat_map_shift:
  "concat (map (\<lambda>i. f (i + 1)) (takeWhile (\<lambda>i. fits (i + 1)) [0..k - 1])) =
   concat (map f (takeWhile fits [1..k]))"
proof -
  have "map (\<lambda>i. f (i + 1)) xs = map f (map (\<lambda>i. i + 1) xs)" for xs :: "int list"
    by (simp add: comp_def)
  then show ?thesis by (simp only: takeWhile_fits_shift)
qed

lemma header_prints:
  "str fr pl = Inr sp \<Longrightarrow>
   haystack_gen fr n fit pl out =
     (case range_py n of
        Inl e \<Rightarrow> (Raised e, out @ header_block sp)
      | Inr is \<Rightarrow> for_loop (loop_body fr fit pl) is (out @ header_block sp))"
  by (simp add: haystack_gen_def Let_def print_def header_block_def split: sum.splits)

lemma haystack_gen_pl_raises:
  "str fr pl = Inl e \<Longrightarrow>
   haystack_gen fr n fit pl out = (Raised e, out @ [''add, start, 1'', [], ''add, B, 9''])"
  by (simp add: haystack_gen_def Let_def print_def)

lemma haystack_gen_float:
  "str fr pl = Inr sp \<Longrightarrow>
   haystack_gen fr (PyFloat w) fit pl out = (Raised TypeError, out @ header_block sp)"
  by (simp add: header_prints)

lemma haystack_gen_shape:
  assumes "str fr pl = Inr sp"
  shows "snd (haystack_gen fr (PyInt k) fit pl out) =
     out @ header_block sp @ concat (map (distractor (fit_text fr fit) sp) (completed fr fit k))"
proof (cases "str fr fit")
  case (Inl e)
  then show ?thesis
    using for_loop_fit_raises [OF Inl, of pl "[0..k - 1]" "out @ header_block sp"]
    by (simp add: header_prints [OF assms] completed_def)
next
  case (Inr sf)
  then show ?thesis
    by (simp add: header_prints [OF assms] for_loop_fit_ok [OF assms Inr] completed_def
        fit_text_def concat_map_shift)
qed

lemma length_str_nat_mono: "m \<le> n \<Longrightarrow> length (str_nat m) \<le> length (str_nat n)"
proof (induction n arbitrary: m rule: str_nat.induct)
  case (1 n)
  show ?case
  proof (cases "n < 10")
    case True
    with "1.prems" show ?thesis
      by (simp add: str_nat.simps [of m] str_nat.simps [of n])
  next
    case n: False
    show ?thesis
    proof (cases "m < 10")
      case True
      with n show ?thesis by (simp add: str_nat.simps [of m] str_nat.simps [of n])
    next
      case False
      have "m div 10 \<le> n div 10" using "1.prems" by (rule div_le_mono)
      with n have "length (str_nat (m div 10)) \<le> length (str_nat (n div 10))"
        by (intro "1.IH") simp_all
      with n False show ?thesis by (simp add: str_nat.simps [of m] str_nat.simps [of n])
    qed
  qed
qed

lemma fits_mono:
  assumes "0 \<le> i" and "i \<le> k" and "fits k"
  shows "fits i"
proof -
  have "nat \<bar>i\<bar> \<le> nat \<bar>k\<bar>" using assms by simp
  then have "length (str_nat (nat \<bar>i\<bar>)) \<le> length (str_nat (nat \<bar>k\<bar>))"
    by (rule length_str_nat_mono)
  with assms(3) show ?thesis unfolding fits_def by (rule order_trans [rotated])
qed

lemma fits_upto: "fits k \<Longrightarrow> takeWhile fits [1..k] = [1..k]"
  by (rule takeWhile_eq_all_conv [THEN iffD2]) (auto intro: fits_mono)

lemma haystack_gen_ok:
  assumes "str fr (PyInt k) = Inr sk" and "str fr fit = Inr sf" and "str fr pl = Inr sp"
  shows "haystack_gen fr (PyInt k) fit pl out = (Done, out @ spec_lines k sf sp)"
proof -
  have k: "fits k" using assms(1) by (simp add: str_Inr_PyInt)
  have all: "\<forall>i\<in>set [0..k - 1]. fits (i + 1)"
  proof
    fix i assume "i \<in> set [0..k - 1]"
    then have "0 \<le> i + 1" "i + 1 \<le> k" by simp_all
    then show "fits (i + 1)" using k by (rule fits_mono)
  qed
  have "concat (map (\<lambda>i. distractor sf sp (i + 1)) (takeWhile (\<lambda>i. fits (i + 1)) [0..k - 1])) =
        concat (map (distractor sf sp) [1..k])"
    by (simp only: concat_map_shift fits_upto [OF k])
  with all show ?thesis
    by (simp add: header_prints [OF assms(3)] for_loop_fit_ok [OF assms(3) assms(2)] spec_lines_def
        del: set_upto)
qed

lemma haystack_gen_nonpositive:
  assumes "k \<le> 0" and "str fr pl = Inr sp"
  shows "haystack_gen fr (PyInt k) fit pl out = (Done, out @ header_block sp)"
  using assms by (simp add: header_prints)

section \<open>Decimal numerals\<close>

lemma digit_char_mem: "d < 10 \<Longrightarrow> digit_char d \<in> set ''0123456789''"
  unfolding digit_char_def by (rule nth_mem) simp

lemma digit_char_not_sep: "d < 10 \<Longrightarrow> CHR '','' \<noteq> digit_char d"
  using digit_char_mem [of d] by auto

lemma digit_char_inj: "a < 10 \<Longrightarrow> b < 10 \<Longrightarrow> digit_char a = digit_char b \<Longrightarrow> a = b"
  unfolding digit_char_def by (subst (asm) nth_eq_iff_index_eq) simp_all

lemma str_nat_not_Nil: "str_nat n \<noteq> []" "[] \<noteq> str_nat n"
  by (subst str_nat.simps, simp)+

lemma comma_notin_str_nat: "CHR '','' \<notin> set (str_nat n)"
proof (induction n rule: str_nat.induct)
  case (1 n)
  show ?case
  proof (cases "n < 10")
    case True
    then show ?thesis by (subst str_nat.simps) (simp add: digit_char_not_sep)
  next
    case False
    with 1 show ?thesis by (subst str_nat.simps) (simp add: digit_char_not_sep)
  qed
qed

lemma comma_notin_str_int: "CHR '','' \<notin> set (str_int i)"
  by (simp add: str_int_def comma_notin_str_nat)

lemma str_nat_inj: "str_nat m = str_nat n \<Longrightarrow> m = n"
proof (induction m arbitrary: n rule: str_nat.induct)
  case (1 m)
  show ?case
  proof (cases "m < 10")
    case m: True
    show ?thesis
    proof (cases "n < 10")
      case True
      with m "1.prems" show ?thesis
        by (simp add: str_nat.simps [of m] str_nat.simps [of n] digit_char_inj)
    next
      case False
      with m "1.prems" show ?thesis
        by (simp add: str_nat.simps [of m] str_nat.simps [of n] str_nat_not_Nil)
    qed
  next
    case m: False
    show ?thesis
    proof (cases "n < 10")
      case True
      with m "1.prems" show ?thesis
        by (simp add: str_nat.simps [of m] str_nat.simps [of n] str_nat_not_Nil)
    next
      case False
      with m "1.prems" have e: "str_nat (m div 10) = str_nat (n div 10)"
        and d: "digit_char (m mod 10) = digit_char (n mod 10)"
        by (simp_all add: str_nat.simps [of m] str_nat.simps [of n])
      from e have "m div 10 = n div 10" using m by (intro "1.IH") simp_all
      moreover from d have "m mod 10 = n mod 10" by (intro digit_char_inj) simp_all
      ultimately show ?thesis by (metis div_mult_mod_eq)
    qed
  qed
qed

lemma str_int_inj_nonneg: "0 \<le> i \<Longrightarrow> 0 \<le> j \<Longrightarrow> str_int i = str_int j \<Longrightarrow> i = j"
  by (auto simp: str_int_def dest: str_nat_inj)

section \<open>Splitting lines into fields\<close>

lemma fields_nonempty: "fields s \<noteq> []"
  by (induction s rule: fields.induct) (auto split: list.splits)

lemma fields_prefix:
  "CHR '','' \<notin> set a \<Longrightarrow> fields (a @ CHR '','' # CHR '' '' # r) = a # fields r"
proof (induction a)
  case Nil
  show ?case by simp
next
  case (Cons c a)
  then have ih: "fields (a @ CHR '','' # CHR '' '' # r) = a # fields r" and c: "c \<noteq> CHR '',''"
    by auto
  obtain d ds where e: "a @ CHR '','' # CHR '' '' # r = d # ds"
    by (cases a) auto
  show ?case using ih c unfolding append_Cons e by simp
qed

lemma fields_add_line:
  "CHR '','' \<notin> set nm \<Longrightarrow> fields (''add, '' @ nm @ '', '' @ r) = ''add'' # nm # fields r"
  using fields_prefix [of "''add''" "nm @ '', '' @ r"] fields_prefix [of nm r] by simp

lemma fields_connect_line:
  "CHR '','' \<notin> set u \<Longrightarrow> CHR '','' \<notin> set v \<Longrightarrow>
   fields (''connect, '' @ u @ '', '' @ v @ '', '' @ r) = ''connect'' # u # v # fields r"
  using fields_prefix [of "''connect''" "u @ '', '' @ v @ '', '' @ r"]
    fields_prefix [of u "v @ '', '' @ r"] fields_prefix [of v r] by simp

lemma add_line:
  assumes "CHR '','' \<notin> set nm"
  shows "is_add (''add, '' @ nm @ '', '' @ r)" and "\<not> is_connect (''add, '' @ nm @ '', '' @ r)"
    and "add_name (''add, '' @ nm @ '', '' @ r) = nm"
  using fields_add_line [OF assms, of r]
  by (simp_all add: is_add_def is_connect_def add_name_def split: list.splits)

lemma connect_line:
  assumes "CHR '','' \<notin> set u" and "CHR '','' \<notin> set v"
  shows "is_connect (''connect, '' @ u @ '', '' @ v @ '', '' @ r)"
    and "\<not> is_add (''connect, '' @ u @ '', '' @ v @ '', '' @ r)"
    and "connect_from (''connect, '' @ u @ '', '' @ v @ '', '' @ r) = u"
    and "connect_to (''connect, '' @ u @ '', '' @ v @ '', '' @ r) = v"
  using fields_connect_line [OF assms, of r]
  by (simp_all add: is_add_def is_connect_def connect_from_def connect_to_def)

lemma blank_line: "\<not> is_add []" "\<not> is_connect []"
  by (simp_all add: is_add_def is_connect_def)

lemma node_name_no_sep: "CHR '','' \<notin> set (''N'' @ str_int i)"
  by (simp add: comma_notin_str_int)

lemma distractor_shape:
  "distractor sf sp i =
     [''add, '' @ (''N'' @ str_int i) @ '', '' @ sf,
      ''connect, '' @ ''start'' @ '', '' @ (''N'' @ str_int i) @ '', '' @ sp,
      ''connect, '' @ (''N'' @ str_int i) @ '', '' @ ''finish'' @ '', '' @ ''0'']"
  by (simp add: distractor_def)

lemma header_shape:
  "header_block sp =
     [''add, '' @ ''start'' @ '', '' @ ''1'', [],
      ''add, '' @ ''B'' @ '', '' @ ''9'',
      ''connect, '' @ ''start'' @ '', '' @ ''B'' @ '', '' @ sp, [],
      ''add, '' @ ''finish'' @ '', '' @ ''10 '',
      ''connect, '' @ ''B'' @ '', '' @ ''finish'' @ '', '' @ ''0'', []]"
  by (simp add: header_block_def)

lemma no_sep_start: "CHR '','' \<notin> set ''start''" and no_sep_B: "CHR '','' \<notin> set ''B''"
  and no_sep_finish: "CHR '','' \<notin> set ''finish''"
  by simp_all

lemmas line_simps =
  add_line [OF node_name_no_sep] add_line [OF no_sep_start] add_line [OF no_sep_B]
  add_line [OF no_sep_finish]
  connect_line [OF no_sep_start node_name_no_sep] connect_line [OF node_name_no_sep no_sep_finish]
  connect_line [OF no_sep_start no_sep_B] connect_line [OF no_sep_B no_sep_finish]
  blank_line

lemma filter_add_distractor:
  "filter is_add (distractor sf sp i) = [''add, '' @ (''N'' @ str_int i) @ '', '' @ sf]"
  unfolding distractor_shape by (simp only: filter.simps line_simps if_True if_False)

lemma added_names_distractor: "added_names (distractor sf sp i) = [''N'' @ str_int i]"
  unfolding added_names_def filter_add_distractor by (simp only: list.map line_simps)

lemma filter_connect_distractor:
  "length (filter is_connect (distractor sf sp i)) = 2"
  unfolding distractor_shape by (simp only: filter.simps line_simps if_True if_False) simp

lemma nonblank_distractor: "nonblank (distractor sf sp i) = distractor sf sp i"
  by (simp add: nonblank_def distractor_def)

lemma added_names_header: "added_names (header_block sp) = [''start'', ''B'', ''finish'']"
  unfolding added_names_def header_shape
  by (simp only: filter.simps line_simps if_True if_False list.map)

lemma filter_add_header: "length (filter is_add (header_block sp)) = 3"
  unfolding header_shape by (simp only: filter.simps line_simps if_True if_False) simp

lemma filter_connect_header: "length (filter is_connect (header_block sp)) = 2"
  unfolding header_shape by (simp only: filter.simps line_simps if_True if_False) simp

lemma nonblank_header: "length (nonblank (header_block sp)) = 5"
  by (simp add: nonblank_def header_block_def)

lemma declared_before_header: "declared_before [] (header_block sp)"
  unfolding header_shape by (simp only: declared_before.simps line_simps if_True if_False) simp

lemma declared_before_append:
  "declared_before seen (xs @ ys) \<longleftrightarrow>
   declared_before seen xs \<and> declared_before (rev (added_names xs) @ seen) ys"
  by (induction xs arbitrary: seen) (simp_all add: added_names_def)

lemma declared_before_distractor:
  "''start'' \<in> set seen \<Longrightarrow> ''finish'' \<in> set seen \<Longrightarrow> declared_before seen (distractor sf sp i)"
  unfolding distractor_shape
  by (simp only: declared_before.simps line_simps if_True if_False) simp

lemma declared_before_distractors:
  "''start'' \<in> set seen \<Longrightarrow> ''finish'' \<in> set seen \<Longrightarrow>
   declared_before seen (concat (map (distractor sf sp) is))"
proof (induction "is" arbitrary: seen)
  case Nil
  show ?case by simp
next
  case (Cons i "is")
  have "declared_before ((''N'' @ str_int i) # seen) (concat (map (distractor sf sp) is))"
    using Cons.prems by (intro Cons.IH) simp_all
  then show ?case using Cons.prems
    by (simp add: declared_before_append declared_before_distractor added_names_distractor)
qed

lemma declared_before_spec_lines: "declared_before [] (spec_lines k sf sp)"
  unfolding spec_lines_def declared_before_append
  by (simp add: declared_before_header added_names_header declared_before_distractors)

lemma connect_not_add: "is_connect l \<Longrightarrow> \<not> is_add l"
  by (auto simp: is_add_def is_connect_def split: list.splits)

lemma declared_before_sound:
  "declared_before seen ls \<Longrightarrow> j < length ls \<Longrightarrow> is_connect (ls ! j) \<Longrightarrow>
   (connect_from (ls ! j) \<in> set seen \<or> (\<exists>i<j. is_add (ls ! i) \<and> add_name (ls ! i) = connect_from (ls ! j))) \<and>
   (connect_to (ls ! j) \<in> set seen \<or> (\<exists>i<j. is_add (ls ! i) \<and> add_name (ls ! i) = connect_to (ls ! j)))"
proof (induction ls arbitrary: seen j)
  case Nil
  then show ?case by simp
next
  case (Cons l ls)
  show ?case
  proof (cases j)
    case 0
    with Cons.prems have "is_connect l" by simp
    then have "\<not> is_add l" by (rule connect_not_add)
    with Cons.prems 0 show ?thesis by simp
  next
    case (Suc j')
    define seen' where "seen' = (if is_add l then add_name l # seen else seen)"
    have db: "declared_before seen' ls"
      using Cons.prems(1) by (auto simp: seen'_def split: if_splits)
    have j': "j' < length ls" and c: "is_connect (ls ! j')"
      using Cons.prems Suc by simp_all
    note ih = Cons.IH [OF db j' c]
    have lift: "\<exists>i<j. is_add ((l # ls) ! i) \<and> add_name ((l # ls) ! i) = x"
      if "x \<in> set seen' \<and> x \<notin> set seen \<or> (\<exists>i<j'. is_add (ls ! i) \<and> add_name (ls ! i) = x)" for x
      using that
    proof
      assume "x \<in> set seen' \<and> x \<notin> set seen"
      then have "is_add l \<and> add_name l = x" by (auto simp: seen'_def split: if_splits)
      then show ?thesis using Suc by (intro exI [of _ 0]) simp
    next
      assume "\<exists>i<j'. is_add (ls ! i) \<and> add_name (ls ! i) = x"
      then obtain i where "i < j'" "is_add (ls ! i)" "add_name (ls ! i) = x" by blast
      then show ?thesis using Suc by (intro exI [of _ "Suc i"]) simp
    qed
    show ?thesis using ih lift [of "connect_from (ls ! j')"] lift [of "connect_to (ls ! j')"] Suc
      by (simp del: ex_simps) blast
  qed
qed

lemma added_names_append: "added_names (xs @ ys) = added_names xs @ added_names ys"
  by (simp add: added_names_def)

lemma added_names_distractors:
  "added_names (concat (map (distractor sf sp) is)) = map (\<lambda>i. ''N'' @ str_int i) is"
  by (induction "is") (simp_all add: added_names_append added_names_distractor, simp add: added_names_def)

lemma added_names_spec_lines:
  "added_names (spec_lines k sf sp) = [''start'', ''B'', ''finish''] @ map (\<lambda>i. ''N'' @ str_int i) [1..k]"
  by (simp add: spec_lines_def added_names_append added_names_header added_names_distractors)

lemma count_add_distractors:
  "length (filter is_add (concat (map (distractor sf sp) is))) = length is"
  by (induction "is") (simp_all add: filter_add_distractor)

lemma count_connect_distractors:
  "length (filter is_connect (concat (map (distractor sf sp) is))) = 2 * length is"
  by (induction "is") (simp_all add: filter_connect_distractor)

lemma count_nonblank_distractors:
  "length (nonblank (concat (map (distractor sf sp) is))) = 3 * length is"
proof (induction "is")
  case Nil
  show ?case by (simp add: nonblank_def)
next
  case (Cons i "is")
  have "nonblank (xs @ ys) = nonblank xs @ nonblank ys" for xs ys :: "string list"
    by (simp add: nonblank_def)
  then show ?case using Cons by (simp add: nonblank_distractor) (simp add: distractor_def)
qed

lemma length_distractors: "length (concat (map (distractor sf sp) is)) = 3 * length is"
  by (induction "is") (simp_all add: distractor_def)

lemma distinct_node_names:
  "distinct ([''start'', ''B'', ''finish''] @ map (\<lambda>i. ''N'' @ str_int i) [1..k])"
proof -
  have "inj_on (\<lambda>i. ''N'' @ str_int i) (set [1..k])"
  proof (rule inj_onI)
    fix x y assume "x \<in> set [1..k]" "y \<in> set [1..k]" "''N'' @ str_int x = ''N'' @ str_int y"
    then have "0 \<le> x" "0 \<le> y" "str_int x = str_int y" by simp_all
    then show "x = y" by (rule str_int_inj_nonneg)
  qed
  then have "distinct (map (\<lambda>i. ''N'' @ str_int i) [1..k])"
    by (simp add: distinct_map)
  then show ?thesis by auto
qed

section \<open>Line counts and the shape of a run\<close>

lemma length_header_block: "length (header_block sp) = 8"
  by (simp add: header_block_def)

lemma blank_notin_distractors: "[] \<notin> set (concat (map (distractor sf sp) is))"
  by (simp add: distractor_def)

lemma spec_lines_explicit:
  "spec_lines k sf sp =
     [''add, start, 1'', [], ''add, B, 9'', ''connect, start, B, '' @ sp, [],
      ''add, finish, 10 '', ''connect, B, finish, 0'', []] @
     concat (map (\<lambda>i. [''add, N'' @ str_int i @ '', '' @ sf,
                        ''connect, start, N'' @ str_int i @ '', '' @ sp,
                        ''connect, N'' @ str_int i @ '', finish, 0'']) [1..k])"
  unfolding spec_lines_def header_block_def distractor_def ..

lemma emit_ok:
  "str fr (PyInt k) = Inr sk \<Longrightarrow> str fr fit = Inr sf \<Longrightarrow> str fr pl = Inr sp \<Longrightarrow>
   emit fr (PyInt k) fit pl = spec_lines k sf sp"
  by (simp add: emit_def haystack_gen_ok)

lemma emit_shape:
  "str fr pl = Inr sp \<Longrightarrow>
   emit fr (PyInt k) fit pl =
     header_block sp @ concat (map (distractor (fit_text fr fit) sp) (completed fr fit k))"
  using haystack_gen_shape [of fr pl sp k fit "[]"] by (simp add: emit_def)

lemma emit_pl_raises:
  "str fr pl = Inl e \<Longrightarrow> emit fr n fit pl = [''add, start, 1'', [], ''add, B, 9'']"
  by (simp add: emit_def haystack_gen_pl_raises)

lemma take_header: "str fr pl = Inr sp \<Longrightarrow> take 8 (emit fr n fit pl) = header_block sp"
  by (cases n) (simp_all add: emit_shape length_header_block, simp add: emit_def haystack_gen_float length_header_block)

lemma drop_header: "drop 8 (spec_lines k sf sp) = concat (map (distractor sf sp) [1..k])"
  by (simp add: spec_lines_def length_header_block)

lemma nonblank_append: "nonblank (xs @ ys) = nonblank xs @ nonblank ys"
  by (simp add: nonblank_def)

lemma length_spec_lines: "length (spec_lines k sf sp) = 8 + 3 * nat k"
  by (simp add: spec_lines_def length_header_block length_distractors)

lemma count_nonblank: "length (nonblank (spec_lines k sf sp)) = 5 + 3 * nat k"
  by (simp add: spec_lines_def nonblank_append nonblank_header count_nonblank_distractors)

lemma count_add: "length (filter is_add (spec_lines k sf sp)) = 3 + nat k"
  by (simp add: spec_lines_def filter_add_header count_add_distractors)

lemma count_connect: "length (filter is_connect (spec_lines k sf sp)) = 2 + 2 * nat k"
  by (simp add: spec_lines_def filter_connect_header count_connect_distractors)

lemma count_blank: "length (filter (\<lambda>l. l = []) (spec_lines k sf sp)) = 3"
  by (simp add: spec_lines_def header_block_def distractor_def)

lemma upto_small: "[1..1] = [1]" "[1..2] = [1, 2]"
  by (simp_all add: upto_rec1)

lemma str_int_small:
  "str_int 1 = ''1''" "str_int 2 = ''2''" "str_int 7 = ''7''"
  by (simp_all add: str_int_def str_nat.simps digit_char_def)

lemma str_small:
  "str fr (PyInt 0) = Inr ''0''" "str fr (PyInt 1) = Inr ''1''" "str fr (PyInt 2) = Inr ''2''"
  "str fr (PyInt 7) = Inr ''7''" "str fr (PyInt (- 3)) = Inr ''-3''" "str fr (PyInt 99) = Inr ''99''"
  by (simp_all add: str_PyInt fits_def int_max_str_digits_def str_int_def str_nat.simps digit_char_def)

lemma str_defaults:
  "str fr path_length = Inr ''7''" "str fr other_path_fitness = Inr (fr 0x3FB999999999999A)"
  by (simp_all add: path_length_def other_path_fitness_def str_small)

subsection \<open>Where the conversion limit ends a run\<close>

lemma length_str_nat_power: "length (str_nat (10 ^ n)) = n + 1"
proof (induction n)
  case 0
  show ?case by (simp add: str_nat.simps)
next
  case (Suc n)
  have "\<not> (10::nat) * 10 ^ n < 10" by simp
  then show ?case using Suc by (simp add: str_nat.simps [of "10 * 10 ^ n"])
qed

lemma fits_power: "fits (10 ^ n) \<longleftrightarrow> n < int_max_str_digits"
proof -
  have "nat \<bar>(10::int) ^ n\<bar> = 10 ^ n"
    by (simp add: nat_power_eq)
  then show ?thesis by (simp only: fits_def length_str_nat_power) (simp add: Suc_le_eq)
qed

lemma str_longest: "str fr (PyInt (10 ^ 4299)) = Inr (str_int (10 ^ 4299))"
proof -
  have "(4299::nat) < 4300" by simp
  then have "fits (10 ^ 4299)" by (simp only: fits_power int_max_str_digits_def)
  then show ?thesis by (simp only: str_PyInt if_True)
qed

lemma str_too_long: "str fr (PyInt (10 ^ 4300)) = Inl ValueError"
proof -
  have "\<not> fits (10 ^ 4300)"
    unfolding fits_power int_max_str_digits_def by (rule less_irrefl)
  then show ?thesis by (simp only: str_PyInt if_False)
qed

lemma run_path_length_too_long:
  "haystack_gen fr n fit (PyInt (10 ^ 4300)) out =
     (Raised ValueError, out @ [''add, start, 1'', [], ''add, B, 9''])"
  by (rule haystack_gen_pl_raises) (rule str_too_long)

lemma run_fit_raises:
  assumes "0 < k" and "str fr pl = Inr sp" and "str fr fit = Inl e"
  shows "haystack_gen fr (PyInt k) fit pl out = (Raised e, out @ header_block sp)"
proof -
  have "loop_body fr fit pl 0 (out @ header_block sp) = (Raised e, out @ header_block sp)"
    using assms(3) by (simp add: loop_body_def str_small)
  moreover have "[0..k - 1] = 0 # [1..k - 1]"
    using assms(1) by (simp add: upto_rec1)
  ultimately show ?thesis
    by (simp add: header_prints [OF assms(2)])
qed

lemma run_fitness_too_long:
  "0 < k \<Longrightarrow> str fr pl = Inr sp \<Longrightarrow>
   haystack_gen fr (PyInt k) (PyInt (10 ^ 4300)) pl out = (Raised ValueError, out @ header_block sp)"
  by (rule run_fit_raises [OF _ _ str_too_long])

subsection \<open>The script's own run\<close>

lemma script_lines: "script fr = (Done, spec_lines 99 (fr 0x3FB999999999999A) ''7'')"
proof -
  have "str fr (PyInt 99) = Inr ''99''" "str fr other_path_fitness = Inr (fr 0x3FB999999999999A)"
    "str fr path_length = Inr ''7''"
    by (rule str_small str_defaults)+
  from haystack_gen_ok [OF this] show ?thesis
    by (simp add: script_def num_other_paths_def)
qed

lemma script_line5: "snd (script fr) ! 5 = ''add, finish, 10 ''"
  by (simp add: script_lines spec_lines_def header_block_def)

lemma fields_finish: "fields ''add, finish, 10 '' = [''add'', ''finish'', ''10 '']"
  by simp

lemma script_explicit: "snd (script fr) = [''add, start, 1'', [], ''add, B, 9'', ''connect, start, B, 7'', [],
      ''add, finish, 10 '', ''connect, B, finish, 0'', []] @
     concat (map (\<lambda>i. [''add, N'' @ str_int i @ '', '' @ fr 0x3FB999999999999A,
                        ''connect, start, N'' @ str_int i @ '', 7'',
                        ''connect, N'' @ str_int i @ '', finish, 0'']) [1..99])"
  unfolding script_lines snd_conv spec_lines_explicit
  by (simp only: append_Cons append_Nil)

lemma emit_one:
  "emit (\<lambda>w. ''0.1'') (PyInt 1) other_path_fitness path_length =
     [''add, start, 1'', [], ''add, B, 9'', ''connect, start, B, 7'', [],
      ''add, finish, 10 '', ''connect, B, finish, 0'', [],
      ''add, N1, 0.1'', ''connect, start, N1, 7'', ''connect, N1, finish, 0'']"
proof -
  have "str (\<lambda>w. ''0.1'') (PyInt 1) = Inr ''1''" "str (\<lambda>w. ''0.1'') other_path_fitness = Inr ''0.1''"
    "str (\<lambda>w. ''0.1'') path_length = Inr ''7''"
    by (simp_all add: str_small str_defaults)
  then have "emit (\<lambda>w. ''0.1'') (PyInt 1) other_path_fitness path_length = spec_lines 1 ''0.1'' ''7''"
    by (rule emit_ok)
  then show ?thesis
    by (simp add: spec_lines_def header_block_def distractor_def upto_small str_int_small)
qed

lemma fields_N1: "fields ''connect, start, N1, 7'' = [''connect'', ''start'', ''N1'', ''7'']"
  by simp

subsection \<open>Runs of every kind\<close>

lemma declared_before_emit: "declared_before [] (emit fr (PyInt k) fit pl)"
proof (cases "str fr pl")
  case (Inl e)
  have "declared_before [] [''add, '' @ ''start'' @ '', '' @ ''1'', [], ''add, '' @ ''B'' @ '', '' @ ''9'']"
    by (simp only: declared_before.simps line_simps if_True if_False)
  then show ?thesis by (simp add: emit_pl_raises [OF Inl])
next
  case (Inr sp)
  show ?thesis
    unfolding emit_shape [OF Inr] declared_before_append
    by (simp add: declared_before_header added_names_header declared_before_distractors)
qed

lemma prefix_takeWhile_append: "prefix (takeWhile P xs) (takeWhile P (xs @ ys))"
  by (induction xs) simp_all

lemma prefix_concat_map: "prefix xs ys \<Longrightarrow> prefix (concat (map f xs)) (concat (map f ys))"
  by (auto simp: prefix_def)

lemma prefix_completed:
  assumes "0 \<le> k"
  shows "prefix (completed fr fit k) (completed fr fit (k + 1))"
proof -
  have "[1..k + 1] = [1..k] @ [k + 1]"
    using assms upto_rec2 [of 1 "k + 1"] by simp
  then show ?thesis
    by (simp add: completed_def prefix_takeWhile_append split: sum.splits)
qed

lemma prefix_emit:
  assumes "0 \<le> k"
  shows "prefix (emit fr (PyInt k) fit pl) (emit fr (PyInt (k + 1)) fit pl)"
proof (cases "str fr pl")
  case (Inl e)
  then show ?thesis by (simp add: emit_pl_raises)
next
  case (Inr sp)
  show ?thesis
    unfolding emit_shape [OF Inr]
    by (simp add: prefix_concat_map prefix_completed [OF assms])
qed

lemma take_header_eq: "take 8 (emit fr n1 fit1 pl) = take 8 (emit fr n2 fit2 pl)"
  by (cases "str fr pl") (simp_all add: emit_pl_raises take_header)

section \<open>The claims\<close>

text \<open>
  C1. For every \<open>num_other_paths = k \<ge> 0\<close>, and values that \<^verbatim>\<open>str\<close> converts (every float,
  every int within the digit limit), the run succeeds and writes exactly, in order:
  \<^verbatim>\<open>add, start, 1\<close>; a blank line; \<^verbatim>\<open>add, B, 9\<close>; \<^verbatim>\<open>connect, start, B, <path_length>\<close>;
  a blank line; \<^verbatim>\<open>add, finish, 10 \<close> with its trailing space; \<^verbatim>\<open>connect, B, finish, 0\<close>;
  a blank line; then for \<open>i\<close> from 1 to \<open>k\<close> the three lines of distractor \<open>N<i>\<close>.
  Nothing after the eighth line is blank. Every number is written as \<^verbatim>\<open>str\<close> gives it.
\<close>

theorem haystack_gen_output_sequence:
  assumes "0 \<le> k"
    and "str fr (PyInt k) = Inr sk" and "str fr fit = Inr sf" and "str fr pl = Inr sp"
  shows "haystack_gen fr (PyInt k) fit pl [] = (Done,
     [''add, start, 1'', [], ''add, B, 9'', ''connect, start, B, '' @ sp, [],
      ''add, finish, 10 '', ''connect, B, finish, 0'', []] @
     concat (map (\<lambda>i. [''add, N'' @ str_int i @ '', '' @ sf,
                        ''connect, start, N'' @ str_int i @ '', '' @ sp,
                        ''connect, N'' @ str_int i @ '', finish, 0'']) [1..k]))
    \<and> [] \<notin> set (drop 8 (emit fr (PyInt k) fit pl))"
  using haystack_gen_ok [OF assms(2-4), of "[]"] blank_notin_distractors [of sf sp "[1..k]"]
  by (simp add: spec_lines_explicit [symmetric] emit_ok [OF assms(2-4)] drop_header del: append_Cons)

theorem haystack_gen_output_sequence_witness:
  "(0::int) \<le> 2 \<and> str (\<lambda>w. ''0.1'') (PyInt 2) = Inr ''2'' \<and>
   str (\<lambda>w. ''0.1'') other_path_fitness = Inr ''0.1'' \<and> str (\<lambda>w. ''0.1'') path_length = Inr ''7'' \<and>
   haystack_gen (\<lambda>w. ''0.1'') (PyInt 2) other_path_fitness path_length [] = (Done,
     [''add, start, 1'', '''', ''add, B, 9'', ''connect, start, B, 7'', '''',
      ''add, finish, 10 '', ''connect, B, finish, 0'', '''',
      ''add, N1, 0.1'', ''connect, start, N1, 7'', ''connect, N1, finish, 0'',
      ''add, N2, 0.1'', ''connect, start, N2, 7'', ''connect, N2, finish, 0''])"
proof -
  have h: "(0::int) \<le> 2" "str (\<lambda>w. ''0.1'') (PyInt 2) = Inr ''2''"
    "str (\<lambda>w. ''0.1'') other_path_fitness = Inr ''0.1''" "str (\<lambda>w. ''0.1'') path_length = Inr ''7''"
    by (simp_all add: str_small str_defaults)
  from haystack_gen_output_sequence [OF h] h show ?thesis
    by (simp add: str_int_small upto_small)
qed

text \<open>
  C2, as the code has it. With the script's own values (99, 0.1, 7) the run writes
  \<open>5 + 3 * 99 = 302\<close> lines that are not blank and 3 blank ones: 102 \<^verbatim>\<open>add\<close> lines and
  \<open>2 + 2 * 99 = 200\<close> \<^verbatim>\<open>connect\<close> lines, the fixed block first and the 99 distractors
  after it, and the fitness field of \<^verbatim>\<open>finish\<close> is \<^verbatim>\<open>10 \<close> with the trailing space.
  This holds whatever text the interpreter gives the float.
\<close>

theorem default_run_line_counts:
  "fst (script fr) = Done \<and>
   length (nonblank (snd (script fr))) = 302 \<and>
   length (filter (\<lambda>l. l = []) (snd (script fr))) = 3 \<and>
   length (filter is_add (snd (script fr))) = 102 \<and>
   length (filter is_connect (snd (script fr))) = 200 \<and>
   snd (script fr) =
     [''add, start, 1'', [], ''add, B, 9'', ''connect, start, B, 7'', [],
      ''add, finish, 10 '', ''connect, B, finish, 0'', []] @
     concat (map (\<lambda>i. [''add, N'' @ str_int i @ '', '' @ fr 0x3FB999999999999A,
                        ''connect, start, N'' @ str_int i @ '', 7'',
                        ''connect, N'' @ str_int i @ '', finish, 0'']) [1..99]) \<and>
   fields (snd (script fr) ! 5) = [''add'', ''finish'', ''10 ''] \<and>
   fields (snd (script fr) ! 5) \<noteq> [''add'', ''finish'', ''10'']"
proof (intro conjI)
  show "fst (script fr) = Done"
    by (simp add: script_lines)
  show "length (nonblank (snd (script fr))) = 302"
    by (simp add: script_lines count_nonblank)
  show "length (filter (\<lambda>l. l = []) (snd (script fr))) = 3"
    by (simp only: script_lines snd_conv count_blank)
  show "length (filter is_add (snd (script fr))) = 102"
    by (simp add: script_lines count_add)
  show "length (filter is_connect (snd (script fr))) = 200"
    by (simp add: script_lines count_connect)
  show "snd (script fr) =
     [''add, start, 1'', [], ''add, B, 9'', ''connect, start, B, 7'', [],
      ''add, finish, 10 '', ''connect, B, finish, 0'', []] @
     concat (map (\<lambda>i. [''add, N'' @ str_int i @ '', '' @ fr 0x3FB999999999999A,
                        ''connect, start, N'' @ str_int i @ '', 7'',
                        ''connect, N'' @ str_int i @ '', finish, 0'']) [1..99])"
    by (rule script_explicit)
  show "fields (snd (script fr) ! 5) = [''add'', ''finish'', ''10 '']"
    by (simp only: script_line5 fields_finish)
  show "fields (snd (script fr) ! 5) \<noteq> [''add'', ''finish'', ''10'']"
    by (simp only: script_line5 fields_finish) simp
qed

text \<open>
  The counts the claim C2 states, 201 lines that are not blank and 101 \<^verbatim>\<open>connect\<close>
  lines, are not the counts of the run.
\<close>

theorem default_run_line_counts_counterexample:
  "length (nonblank (snd (script (\<lambda>w. ''0.1'')))) \<noteq> 201 \<and>
   length (filter is_connect (snd (script (\<lambda>w. ''0.1'')))) \<noteq> 101"
  by (simp add: script_lines count_nonblank count_connect)

text \<open>
  C3, as the code has it. With \<open>num_other_paths = 0\<close> and a \<open>path_length\<close> that \<^verbatim>\<open>str\<close>
  converts, the run writes exactly the fixed block and nothing after it: eight lines,
  five of them directives and three blank. The fitness value is never converted.
\<close>

theorem zero_paths_header_only:
  assumes "str fr pl = Inr sp"
  shows "haystack_gen fr (PyInt 0) fit pl [] =
     (Done, [''add, start, 1'', [], ''add, B, 9'', ''connect, start, B, '' @ sp, [],
             ''add, finish, 10 '', ''connect, B, finish, 0'', []]) \<and>
   length (emit fr (PyInt 0) fit pl) = 8 \<and>
   length (nonblank (emit fr (PyInt 0) fit pl)) = 5 \<and>
   length (filter (\<lambda>l. l = []) (emit fr (PyInt 0) fit pl)) = 3"
  using haystack_gen_nonpositive [OF order_refl assms, of fit "[]"]
  by (simp add: emit_def) (simp add: header_block_def nonblank_def)

theorem zero_paths_header_only_witness:
  "str (\<lambda>w. ''0.1'') path_length = Inr ''7'' \<and>
   haystack_gen (\<lambda>w. ''0.1'') (PyInt 0) other_path_fitness path_length [] =
     (Done, [''add, start, 1'', [], ''add, B, 9'', ''connect, start, B, 7'', [],
             ''add, finish, 10 '', ''connect, B, finish, 0'', []]) \<and>
   length (emit (\<lambda>w. ''0.1'') (PyInt 0) other_path_fitness path_length) = 8 \<and>
   length (nonblank (emit (\<lambda>w. ''0.1'') (PyInt 0) other_path_fitness path_length)) = 5 \<and>
   length (filter (\<lambda>l. l = []) (emit (\<lambda>w. ''0.1'') (PyInt 0) other_path_fitness path_length)) = 3"
proof -
  have h: "str (\<lambda>w. ''0.1'') path_length = Inr ''7''"
    by (rule str_defaults)
  from zero_paths_header_only [OF h, of other_path_fitness] h show ?thesis
    by simp
qed

text \<open>
  The fixed block is not a block of seven lines, whether the blank lines are counted
  or not.
\<close>

theorem zero_paths_header_size_counterexample:
  "length (emit (\<lambda>w. ''0.1'') (PyInt 0) other_path_fitness path_length) \<noteq> 7 \<and>
   length (nonblank (emit (\<lambda>w. ''0.1'') (PyInt 0) other_path_fitness path_length)) \<noteq> 7"
proof -
  have "emit (\<lambda>w. ''0.1'') (PyInt 0) other_path_fitness path_length = header_block ''7''"
    using haystack_gen_nonpositive [OF order_refl str_defaults(1), of "\<lambda>w. ''0.1''" other_path_fitness "[]"]
    by (simp add: emit_def)
  then show ?thesis
    by (simp add: header_block_def nonblank_def)
qed

text \<open>
  C4. For every \<open>k \<ge> 0\<close>, and values that \<^verbatim>\<open>str\<close> converts, the names that the
  \<^verbatim>\<open>add\<close> lines of the output declare are exactly \<open>start\<close>, \<open>B\<close>, \<open>finish\<close> and \<open>N1\<close> to
  \<open>N<k>\<close>, and no name is declared by two \<^verbatim>\<open>add\<close> lines.
\<close>

theorem added_names_exact:
  assumes "0 \<le> k"
    and "str fr (PyInt k) = Inr sk" and "str fr fit = Inr sf" and "str fr pl = Inr sp"
  shows "set (added_names (emit fr (PyInt k) fit pl)) =
           {''start'', ''B'', ''finish''} \<union> (\<lambda>i. ''N'' @ str_int i) ` {1..k}
         \<and> distinct (added_names (emit fr (PyInt k) fit pl))"
  using distinct_node_names [of k]
  by (simp only: emit_ok [OF assms(2-4)] added_names_spec_lines) auto

theorem added_names_exact_witness:
  "(0::int) \<le> 2 \<and> str (\<lambda>w. ''0.1'') (PyInt 2) = Inr ''2'' \<and>
   str (\<lambda>w. ''0.1'') other_path_fitness = Inr ''0.1'' \<and> str (\<lambda>w. ''0.1'') path_length = Inr ''7'' \<and>
   added_names (emit (\<lambda>w. ''0.1'') (PyInt 2) other_path_fitness path_length) =
     [''start'', ''B'', ''finish'', ''N1'', ''N2''] \<and>
   set (added_names (emit (\<lambda>w. ''0.1'') (PyInt 2) other_path_fitness path_length)) =
     {''start'', ''B'', ''finish''} \<union> (\<lambda>i. ''N'' @ str_int i) ` {1..2} \<and>
   distinct (added_names (emit (\<lambda>w. ''0.1'') (PyInt 2) other_path_fitness path_length))"
proof -
  have h: "(0::int) \<le> 2" "str (\<lambda>w. ''0.1'') (PyInt 2) = Inr ''2''"
    "str (\<lambda>w. ''0.1'') other_path_fitness = Inr ''0.1''" "str (\<lambda>w. ''0.1'') path_length = Inr ''7''"
    by (simp_all add: str_small str_defaults)
  have "added_names (emit (\<lambda>w. ''0.1'') (PyInt 2) other_path_fitness path_length) =
     [''start'', ''B'', ''finish'', ''N1'', ''N2'']"
    by (simp add: emit_ok [OF h(2-4)] added_names_spec_lines upto_small str_int_small)
  with added_names_exact [OF h] h show ?thesis
    by simp
qed

text \<open>
  C5. For every \<open>k \<ge> 0\<close>, both endpoints of every \<^verbatim>\<open>connect\<close> line of the output are
  declared by an \<^verbatim>\<open>add\<close> line that stands earlier in the output.
\<close>

theorem connect_endpoints_declared_earlier:
  assumes "0 \<le> k" and "out = emit fr (PyInt k) fit pl"
    and "j < length out" and "is_connect (out ! j)"
  shows "(\<exists>i<j. is_add (out ! i) \<and> add_name (out ! i) = connect_from (out ! j)) \<and>
         (\<exists>i<j. is_add (out ! i) \<and> add_name (out ! i) = connect_to (out ! j))"
proof -
  have "declared_before [] out"
    using assms(2) by (simp add: declared_before_emit)
  from declared_before_sound [OF this assms(3) assms(4)] show ?thesis
    by simp
qed

theorem connect_endpoints_declared_earlier_witness:
  "(0::int) \<le> 1 \<and> 9 < length (emit (\<lambda>w. ''0.1'') (PyInt 1) other_path_fitness path_length) \<and>
   is_connect (emit (\<lambda>w. ''0.1'') (PyInt 1) other_path_fitness path_length ! 9) \<and>
   connect_from (emit (\<lambda>w. ''0.1'') (PyInt 1) other_path_fitness path_length ! 9) = ''start'' \<and>
   connect_to (emit (\<lambda>w. ''0.1'') (PyInt 1) other_path_fitness path_length ! 9) = ''N1'' \<and>
   (\<exists>i<9. is_add (emit (\<lambda>w. ''0.1'') (PyInt 1) other_path_fitness path_length ! i) \<and>
      add_name (emit (\<lambda>w. ''0.1'') (PyInt 1) other_path_fitness path_length ! i) = ''start'') \<and>
   (\<exists>i<9. is_add (emit (\<lambda>w. ''0.1'') (PyInt 1) other_path_fitness path_length ! i) \<and>
      add_name (emit (\<lambda>w. ''0.1'') (PyInt 1) other_path_fitness path_length ! i) = ''N1'')"
proof -
  let ?out = "emit (\<lambda>w. ''0.1'') (PyInt 1) other_path_fitness path_length"
  have l9: "?out ! 9 = ''connect, start, N1, 7''"
    by (simp add: emit_one)
  have a: "(0::int) \<le> 1" by simp
  have b: "9 < length ?out" by (simp add: emit_one)
  have c: "is_connect (?out ! 9)" unfolding l9 is_connect_def fields_N1 by simp
  have f: "connect_from (?out ! 9) = ''start''" unfolding l9 connect_from_def fields_N1 by simp
  have t: "connect_to (?out ! 9) = ''N1''" unfolding l9 connect_to_def fields_N1 by simp
  from connect_endpoints_declared_earlier [OF a refl b c] a b c f t show ?thesis by simp
qed

text \<open>
  C6. With a negative \<open>num_other_paths\<close> the loop body never runs: whatever the fitness
  value is, and for every \<open>path_length\<close> that \<^verbatim>\<open>str\<close> converts, the run succeeds and writes
  the fixed block only; nothing is checked.
\<close>

theorem negative_count_header_only:
  assumes "n < 0" and "str fr pl = Inr sp"
  shows "haystack_gen fr (PyInt n) fit pl out =
     (Done, out @ [''add, start, 1'', [], ''add, B, 9'', ''connect, start, B, '' @ sp, [],
                   ''add, finish, 10 '', ''connect, B, finish, 0'', []])"
  using haystack_gen_nonpositive [OF less_imp_le [OF assms(1)] assms(2), of fit out]
  by (simp add: header_block_def)

theorem negative_count_header_only_witness:
  "(- 3::int) < 0 \<and> str (\<lambda>w. ''0.1'') path_length = Inr ''7'' \<and>
   haystack_gen (\<lambda>w. ''0.1'') (PyInt (- 3)) other_path_fitness path_length [] =
     (Done, [''add, start, 1'', [], ''add, B, 9'', ''connect, start, B, 7'', [],
             ''add, finish, 10 '', ''connect, B, finish, 0'', []])"
proof -
  have h: "(- 3::int) < 0" "str (\<lambda>w. ''0.1'') path_length = Inr ''7''"
    by (simp_all add: str_defaults)
  from negative_count_header_only [OF h, of other_path_fitness "[]"] h show ?thesis
    by simp
qed

text \<open>
  C8. For every integer \<open>num_other_paths\<close>, and values that \<^verbatim>\<open>str\<close> converts, the run
  comes to its end without raising, having written \<open>8 + 3 * max 0 n\<close> lines, and the
  interpreter exits with status 0.
\<close>

theorem run_completes_exit_zero:
  assumes "str fr (PyInt n) = Inr sn" and "str fr fit = Inr sf" and "str fr pl = Inr sp"
  shows "\<exists>out'. haystack_gen fr (PyInt n) fit pl out = (Done, out') \<and>
      length out' = length out + 8 + 3 * nat n \<and>
      exit_code (fst (haystack_gen fr (PyInt n) fit pl out)) = 0"
  by (simp add: haystack_gen_ok [OF assms] length_spec_lines)

theorem run_completes_exit_zero_witness:
  "str (\<lambda>w. ''0.1'') (PyInt 2) = Inr ''2'' \<and>
   str (\<lambda>w. ''0.1'') other_path_fitness = Inr ''0.1'' \<and> str (\<lambda>w. ''0.1'') path_length = Inr ''7'' \<and>
   (\<exists>out'. haystack_gen (\<lambda>w. ''0.1'') (PyInt 2) other_path_fitness path_length [] = (Done, out') \<and>
      length out' = length ([] :: string list) + 8 + 3 * nat 2 \<and>
      exit_code (fst (haystack_gen (\<lambda>w. ''0.1'') (PyInt 2) other_path_fitness path_length [])) = 0)"
proof -
  have h: "str (\<lambda>w. ''0.1'') (PyInt 2) = Inr ''2''"
    "str (\<lambda>w. ''0.1'') other_path_fitness = Inr ''0.1''" "str (\<lambda>w. ''0.1'') path_length = Inr ''7''"
    by (simp_all add: str_small str_defaults)
  from run_completes_exit_zero [OF h, of "[]"] h show ?thesis
    by blast
qed

text \<open>
  C9. For every \<open>k \<ge> 0\<close> the output for \<open>k\<close> distractors is a prefix of the output for
  \<open>k + 1\<close>, whatever the other two values are, also when a conversion ends the run
  early. Where \<^verbatim>\<open>str\<close> converts the values, one more distractor appends exactly its
  three lines.
\<close>

theorem output_prefix_monotone:
  assumes "0 \<le> k"
  shows "prefix (emit fr (PyInt k) fit pl) (emit fr (PyInt (k + 1)) fit pl) \<and>
         (\<forall>sk sf sp. str fr (PyInt (k + 1)) = Inr sk \<longrightarrow> str fr fit = Inr sf \<longrightarrow> str fr pl = Inr sp \<longrightarrow>
            emit fr (PyInt (k + 1)) fit pl =
              emit fr (PyInt k) fit pl @
                [''add, N'' @ str_int (k + 1) @ '', '' @ sf,
                 ''connect, start, N'' @ str_int (k + 1) @ '', '' @ sp,
                 ''connect, N'' @ str_int (k + 1) @ '', finish, 0''])"
proof (intro conjI allI impI)
  show "prefix (emit fr (PyInt k) fit pl) (emit fr (PyInt (k + 1)) fit pl)"
    using assms by (rule prefix_emit)
next
  fix sk sf sp
  assume s: "str fr (PyInt (k + 1)) = Inr sk" "str fr fit = Inr sf" "str fr pl = Inr sp"
  from s(1) have "fits (k + 1)" by (simp add: str_Inr_PyInt)
  with assms have "fits k" by (intro fits_mono [of k "k + 1"]) simp_all
  then have k: "str fr (PyInt k) = Inr (str_int k)" by (simp add: str_PyInt)
  have "[1..k + 1] = [1..k] @ [k + 1]"
    using assms upto_rec2 [of 1 "k + 1"] by simp
  then have "spec_lines (k + 1) sf sp = spec_lines k sf sp @ distractor sf sp (k + 1)"
    by (simp add: spec_lines_def)
  then show "emit fr (PyInt (k + 1)) fit pl =
      emit fr (PyInt k) fit pl @
        [''add, N'' @ str_int (k + 1) @ '', '' @ sf,
         ''connect, start, N'' @ str_int (k + 1) @ '', '' @ sp,
         ''connect, N'' @ str_int (k + 1) @ '', finish, 0'']"
    by (simp add: emit_ok [OF s] emit_ok [OF k s(2) s(3)] distractor_def)
qed

theorem output_prefix_monotone_witness:
  "(0::int) \<le> 0 \<and> str (\<lambda>w. ''0.1'') (PyInt (0 + 1)) = Inr ''1'' \<and>
   str (\<lambda>w. ''0.1'') other_path_fitness = Inr ''0.1'' \<and> str (\<lambda>w. ''0.1'') path_length = Inr ''7'' \<and>
   prefix (emit (\<lambda>w. ''0.1'') (PyInt 0) other_path_fitness path_length)
          (emit (\<lambda>w. ''0.1'') (PyInt (0 + 1)) other_path_fitness path_length) \<and>
   emit (\<lambda>w. ''0.1'') (PyInt (0 + 1)) other_path_fitness path_length =
     emit (\<lambda>w. ''0.1'') (PyInt 0) other_path_fitness path_length @
       [''add, N1, 0.1'', ''connect, start, N1, 7'', ''connect, N1, finish, 0'']"
proof -
  have h: "str (\<lambda>w. ''0.1'') (PyInt (0 + 1)) = Inr ''1''"
    "str (\<lambda>w. ''0.1'') other_path_fitness = Inr ''0.1''" "str (\<lambda>w. ''0.1'') path_length = Inr ''7''"
    by (simp_all add: str_small str_defaults)
  from output_prefix_monotone [OF order_refl, of "\<lambda>w. ''0.1''" other_path_fitness path_length] h
  show ?thesis
    by (simp add: str_int_small)
qed

text \<open>
  C10. The first eight lines of the output depend on \<open>path_length\<close> only: two runs with
  the same \<open>path_length\<close> agree on them, whatever their \<open>num_other_paths\<close> and
  \<open>other_path_fitness\<close> are. Where \<^verbatim>\<open>str\<close> converts \<open>path_length\<close> they are the fixed block.
\<close>

theorem header_depends_only_on_path_length:
  "take 8 (emit fr n1 fit1 pl) = take 8 (emit fr n2 fit2 pl) \<and>
   (\<forall>sp. str fr pl = Inr sp \<longrightarrow>
      take 8 (emit fr n1 fit1 pl) =
        [''add, start, 1'', [], ''add, B, 9'', ''connect, start, B, '' @ sp, [],
         ''add, finish, 10 '', ''connect, B, finish, 0'', []])"
  using take_header_eq [of fr n1 fit1 pl n2 fit2]
  by (simp add: take_header) (simp add: header_block_def)

theorem header_depends_only_on_path_length_witness:
  "str (\<lambda>w. ''0.1'') path_length = Inr ''7'' \<and>
   take 8 (emit (\<lambda>w. ''0.1'') (PyInt 5) other_path_fitness path_length) =
     take 8 (emit (\<lambda>w. ''0.1'') (PyFloat 0) (PyInt 3) path_length) \<and>
   take 8 (emit (\<lambda>w. ''0.1'') (PyInt 5) other_path_fitness path_length) =
     [''add, start, 1'', [], ''add, B, 9'', ''connect, start, B, 7'', [],
      ''add, finish, 10 '', ''connect, B, finish, 0'', []]"
proof -
  let ?a = "emit (\<lambda>w. ''0.1'') (PyInt 5) other_path_fitness path_length"
  let ?b = "emit (\<lambda>w. ''0.1'') (PyFloat 0) (PyInt 3) path_length"
  have h: "str (\<lambda>w. ''0.1'') path_length = Inr ''7''"
    by (rule str_defaults)
  note t = header_depends_only_on_path_length
    [of "\<lambda>w. ''0.1''" "PyInt 5" other_path_fitness path_length "PyFloat 0" "PyInt 3"]
  have e: "take 8 ?a = take 8 ?b"
    using t by (rule conjunct1)
  have l: "take 8 ?a =
     [''add, start, 1'', [], ''add, B, 9'', ''connect, start, B, '' @ ''7'', [],
      ''add, finish, 10 '', ''connect, B, finish, 0'', []]"
    using t [THEN conjunct2, rule_format, OF h] .
  show ?thesis
  proof (intro conjI)
    show "str (\<lambda>w. ''0.1'') path_length = Inr ''7''" by (rule h)
    show "take 8 ?a = take 8 ?b" by (rule e)
    show "take 8 ?a =
     [''add, start, 1'', [], ''add, B, 9'', ''connect, start, B, 7'', [],
      ''add, finish, 10 '', ''connect, B, finish, 0'', []]"
      unfolding l by simp
  qed
qed

end
